theory Spec2Isabelle
  imports Complex_Main "HOL-Library.Char_ord" "HOL-Library.List_Lexorder" "HOL-Library.Multiset"
begin

section \<open>A shallow embedding of the script\<close>

text \<open>
  The script \<^verbatim>\<open>make_readme.py\<close> walks a directory, reads the header of every
  PSRFITS or filterbank file it finds, aggregates the distinct header values and writes a
  summary file.

  Conventions of the embedding.
  \<^item> A Python \<open>str\<close> is a \<open>string\<close>; only ASCII code points are considered, and
    strings are ordered as Python orders them, by code point and lexicographically.
  \<^item> A Python \<open>float\<close> is a \<open>real\<close>: the arithmetic of the model is exact, the
    rounding of IEEE-754 doubles is outside the model, and the two conversions of a float
    to text (\<open>str\<close> and the format \<open>{:.2f}\<close>) are parameters of the environment.
  \<^item> A path that names a file system entry is kept as the list of its components from
    the root; the strings the user passes are parsed into that form by \<open>resolve\<close>,
    which is lexical (as \<open>os.path.normpath\<close>).
  \<^item> The file system is a tree; a symbolic link carries the node it resolves to, so link
    cycles are not representable and the working directory is the logical path.
  \<^item> The two header readers (\<open>pdat.PyPSRFITS\<close>, \<open>sigpyproc.FilReader\<close>), the
    clock, the user name and the answer typed at the prompt are fields of the
    environment; a reader that raises returns \<open>None\<close>.
  \<^item> \<open>glob.glob\<close> is modelled on the tree for a root without pattern characters;
    what it returns for a root that has one is a field of the environment.
  \<^item> Progress messages printed under the verbose option are not modelled; the message
    printed before an exit is.
\<close>

subsection \<open>Strings\<close>

definition newline :: string where
  "newline = [CHR 0x0A]"

text \<open>\<open>str.isspace\<close> on the ASCII range.\<close>

definition isspace :: "char \<Rightarrow> bool" where
  "isspace c = (let k = (of_char c :: nat) in (9 \<le> k \<and> k \<le> 13) \<or> (28 \<le> k \<and> k \<le> 32))"

text \<open>\<open>str.strip()\<close>\<close>

definition strip :: "string \<Rightarrow> string" where
  "strip s = rev (dropWhile isspace (rev (dropWhile isspace s)))"

text \<open>\<open>sep.join(xs)\<close>\<close>

fun join :: "string \<Rightarrow> string list \<Rightarrow> string" where
  "join sep [] = []"
| "join sep [x] = x"
| "join sep (x # y # ys) = x @ sep @ join sep (y # ys)"

text \<open>\<open>str(n)\<close> for a non-negative integer.\<close>

fun str_nat :: "nat \<Rightarrow> string" where
  "str_nat n = (if n < 10 then [char_of (48 + n)]
                else str_nat (n div 10) @ [char_of (48 + n mod 10)])"

declare str_nat.simps [simp del]

definition endswith :: "string \<Rightarrow> string \<Rightarrow> bool" where
  "endswith s e = (length e \<le> length s \<and> drop (length s - length e) s = e)"

text \<open>
  \<open>os.path.splitext\<close> on a base name: the extension starts at the last dot, unless
  only dots precede it.
\<close>

definition splitext :: "string \<Rightarrow> string \<times> string" where
  "splitext p =
     (let r = rev p; e = takeWhile (\<lambda>c. c \<noteq> CHR ''.'') r in
      if length e = length p then (p, [])
      else let stem = rev (drop (length e + 1) r) in
        if \<exists>c \<in> set stem. c \<noteq> CHR ''.'' then (stem, CHR ''.'' # rev e) else (p, []))"

subsection \<open>Paths\<close>

type_synonym path = "string list"

definition path_str :: "path \<Rightarrow> string" where
  "path_str p = (if p = [] then ''/'' else concat (map (\<lambda>c. CHR ''/'' # c) p))"

definition basename :: "path \<Rightarrow> string" where
  "basename p = (if p = [] then [] else last p)"

fun split_on :: "char \<Rightarrow> string \<Rightarrow> string list" where
  "split_on c [] = [[]]"
| "split_on c (x # xs) =
     (if x = c then [] # split_on c xs
      else (case split_on c xs of [] \<Rightarrow> [[x]] | w # ws \<Rightarrow> (x # w) # ws))"

fun normalize :: "path \<Rightarrow> string list \<Rightarrow> path" where
  "normalize acc [] = acc"
| "normalize acc (c # cs) =
     (if c = [] \<or> c = ''.'' then normalize acc cs
      else if c = ''..'' then normalize (butlast acc) cs
      else normalize (acc @ [c]) cs)"

definition isabs :: "string \<Rightarrow> bool" where
  "isabs s = (case s of [] \<Rightarrow> False | c # _ \<Rightarrow> c = CHR ''/'')"

text \<open>
  The entry a path string names when the working directory is \<open>cwd\<close>. It stands for
  the resolution done by the operating system and for \<open>os.path.abspath\<close>.
\<close>

definition resolve :: "path \<Rightarrow> string \<Rightarrow> path" where
  "resolve cwd s = normalize (if isabs s then [] else cwd) (split_on (CHR ''/'') s)"

text \<open>\<open>os.path.join(a, b)\<close>\<close>

definition os_path_join :: "string \<Rightarrow> string \<Rightarrow> string" where
  "os_path_join a b =
     (if isabs b then b
      else if a = [] \<or> last a = CHR ''/'' then a @ b
      else a @ ''/'' @ b)"

text \<open>\<open>glob.has_magic\<close>\<close>

definition has_magic :: "string \<Rightarrow> bool" where
  "has_magic s = (\<exists>c \<in> set s. c = CHR ''*'' \<or> c = CHR ''?'' \<or> c = CHR ''['')"

subsection \<open>The file system\<close>

datatype node = File string | Dir "(string \<times> node) list" | Link "node option"

fun deref :: "node \<Rightarrow> node option" where
  "deref (Link None) = None"
| "deref (Link (Some n)) = deref n"
| "deref (File t) = Some (File t)"
| "deref (Dir es) = Some (Dir es)"

text \<open>\<open>lstat\<close>: links in the directory part are followed, the last component is not.\<close>

fun lstat :: "node \<Rightarrow> path \<Rightarrow> node option" where
  "lstat n [] = Some n"
| "lstat n (c # cs) =
     (case deref n of
        Some (Dir es) \<Rightarrow> (case map_of es c of None \<Rightarrow> None | Some m \<Rightarrow> lstat m cs)
      | _ \<Rightarrow> None)"

definition stat :: "node \<Rightarrow> path \<Rightarrow> node option" where
  "stat fs p = (case lstat fs p of None \<Rightarrow> None | Some n \<Rightarrow> deref n)"

definition islink :: "node \<Rightarrow> path \<Rightarrow> bool" where
  "islink fs p = (case lstat fs p of Some (Link t) \<Rightarrow> True | _ \<Rightarrow> False)"

definition isdir :: "node \<Rightarrow> path \<Rightarrow> bool" where
  "isdir fs p = (case stat fs p of Some (Dir es) \<Rightarrow> True | _ \<Rightarrow> False)"

definition exists :: "node \<Rightarrow> path \<Rightarrow> bool" where
  "exists fs p = (stat fs p \<noteq> None)"

definition is_dir_node :: "node \<Rightarrow> bool" where
  "is_dir_node n = (case deref n of Some (Dir es) \<Rightarrow> True | _ \<Rightarrow> False)"

fun update_entry :: "string \<Rightarrow> node \<Rightarrow> (string \<times> node) list \<Rightarrow> (string \<times> node) list" where
  "update_entry c m [] = [(c, m)]"
| "update_entry c m ((x, n) # es) =
     (if x = c then (c, m) # es else (x, n) # update_entry c m es)"

text \<open>
  \<open>open(p, 'w')\<close>, the writes and \<open>close()\<close>, on the entry the last component
  names (\<open>None\<close> when there is none): a regular file is replaced, a link is written
  through, a directory is refused.
\<close>

fun write_leaf :: "node option \<Rightarrow> string \<Rightarrow> node option" where
  "write_leaf None t = Some (File t)"
| "write_leaf (Some (File old)) t = Some (File t)"
| "write_leaf (Some (Dir es)) t = None"
| "write_leaf (Some (Link None)) t = Some (Link (Some (File t)))"
| "write_leaf (Some (Link (Some m))) t =
     (case write_leaf (Some m) t of None \<Rightarrow> None | Some m' \<Rightarrow> Some (Link (Some m')))"

fun write_at :: "node \<Rightarrow> path \<Rightarrow> string \<Rightarrow> node option" where
  "write_at n [] t = write_leaf (Some n) t"
| "write_at (File old) (c # cs) t = None"
| "write_at (Link None) (c # cs) t = None"
| "write_at (Link (Some m)) (c # cs) t =
     (case write_at m (c # cs) t of None \<Rightarrow> None | Some m' \<Rightarrow> Some (Link (Some m')))"
| "write_at (Dir es) (c # cs) t =
     (if cs = [] then
        (case write_leaf (map_of es c) t of
           None \<Rightarrow> None | Some m' \<Rightarrow> Some (Dir (update_entry c m' es)))
      else
        (case map_of es c of
           None \<Rightarrow> None
         | Some m \<Rightarrow> (case write_at m cs t of
                        None \<Rightarrow> None | Some m' \<Rightarrow> Some (Dir (update_entry c m' es)))))"

subsection \<open>The environment\<close>

datatype error = ReaderError | OSError | UnboundLocalError | EOFError

record psr_header =
  TELESCOP :: string
  OBSERVER :: string
  PROJID :: string
  SRC_NAME :: string
  OBS_MODE :: string
  STT_IMJD :: int
  STT_SMJD :: int
  OBSFREQ :: real

record fil_header =
  h_telescope :: string
  h_source :: string
  tstart :: real
  fch1 :: real
  foff :: real
  nchans :: int

record env =
  getcwd :: path
  getuser :: string
  script_file :: string
  answer :: "string option"
  start_timestamp :: string
  end_timestamp :: string
  PyPSRFITS :: "path \<Rightarrow> psr_header option"
  FilReader :: "path \<Rightarrow> fil_header option"
  dir_size :: "path \<Rightarrow> nat"
  fmt_2f :: "real \<Rightarrow> string"
  str_float :: "real \<Rightarrow> string"
  glob_magic :: "string \<Rightarrow> path list"

text \<open>\<open>os.path.getsize\<close>\<close>

definition getsize :: "env \<Rightarrow> node \<Rightarrow> path \<Rightarrow> error + nat" where
  "getsize ev fs p =
     (case stat fs p of
        None \<Rightarrow> Inl OSError
      | Some (File t) \<Rightarrow> Inr (length t)
      | Some (Dir es) \<Rightarrow> Inr (dir_size ev p)
      | Some (Link t) \<Rightarrow> Inl OSError)"

subsection \<open>The header extractor\<close>

record file_record =
  path :: string
  file_name :: string
  ext :: string
  size_gb :: real
  telescope :: string
  observer :: string
  project_id :: string
  source :: string
  mode :: string
  MJD :: real
  center_freq :: real

text \<open>The centre of the band of a filterbank header (line 147).\<close>

definition fil_center_freq :: "fil_header \<Rightarrow> real" where
  "fil_center_freq header = fch1 header + foff header * (real_of_int (nchans header) - 1) / 2"

definition parse_data :: "env \<Rightarrow> node \<Rightarrow> path \<Rightarrow> error + file_record" where
  "parse_data ev fs data_file =
     (let e = snd (splitext (basename data_file)) in
      case getsize ev fs data_file of
        Inl err \<Rightarrow> Inl err
      | Inr bytes \<Rightarrow>
          let sz = real bytes / 10 ^ 9 in
          if e \<in> set [''.fits'', ''.sf'', ''.rf''] then
            (case PyPSRFITS ev data_file of
               None \<Rightarrow> Inl ReaderError
             | Some header \<Rightarrow> Inr \<lparr>
                 path = path_str (butlast data_file),
                 file_name = basename data_file,
                 ext = e,
                 size_gb = sz,
                 telescope = strip (TELESCOP header),
                 observer = strip (OBSERVER header),
                 project_id = strip (PROJID header),
                 source = strip (SRC_NAME header),
                 mode = strip (OBS_MODE header),
                 MJD = real_of_int (STT_IMJD header) + real_of_int (STT_SMJD header) / (24 * 60 * 60),
                 center_freq = OBSFREQ header \<rparr>)
          else if e \<in> set [''.fil''] then
            (case FilReader ev data_file of
               None \<Rightarrow> Inl ReaderError
             | Some header \<Rightarrow> Inr \<lparr>
                 path = path_str (butlast data_file),
                 file_name = basename data_file,
                 ext = e,
                 size_gb = sz,
                 telescope = strip (h_telescope header),
                 observer = ''Unknown'',
                 project_id = ''Unknown'',
                 source = strip (h_source header),
                 mode = ''Unknown'',
                 MJD = tstart header,
                 center_freq = fil_center_freq header \<rparr>)
          else Inl UnboundLocalError)"

subsection \<open>The scanner and the aggregator\<close>

record summary =
  n_files :: nat
  tot_size :: real
  exts :: "string list"
  telescopes :: "string list"
  observers :: "string list"
  project_ids :: "string list"
  sources :: "string list"
  modes :: "string list"
  MJDs :: "real list"
  center_freqs :: "real list"

definition init_summary :: summary where
  "init_summary = \<lparr> n_files = 0, tot_size = 0, exts = [], telescopes = [], observers = [],
     project_ids = [], sources = [], modes = [], MJDs = [], center_freqs = [] \<rparr>"

text \<open>\<open>if x not in xs: xs.append(x)\<close>\<close>

definition append_new :: "'a \<Rightarrow> 'a list \<Rightarrow> 'a list" where
  "append_new x xs = (if x \<notin> set xs then xs @ [x] else xs)"

text \<open>The body of the scan loop after the call of the extractor (lines 213 to 230).\<close>

definition add_record :: "file_record \<Rightarrow> summary \<Rightarrow> summary" where
  "add_record r s = \<lparr>
     n_files = n_files s + 1,
     tot_size = tot_size s + size_gb r,
     exts = append_new (ext r) (exts s),
     telescopes = append_new (telescope r) (telescopes s),
     observers = append_new (observer r) (observers s),
     project_ids = append_new (project_id r) (project_ids s),
     sources = append_new (source r) (sources s),
     modes = append_new (mode r) (modes s),
     MJDs = append_new (MJD r) (MJDs s),
     center_freqs = append_new (center_freq r) (center_freqs s) \<rparr>"

text \<open>The scan loop (lines 208 to 233); a failure of the extractor ends the run.\<close>

fun scan :: "env \<Rightarrow> node \<Rightarrow> path list \<Rightarrow> summary \<Rightarrow> error + summary" where
  "scan ev fs [] s = Inr s"
| "scan ev fs (af # afs) s =
     (if \<not> islink fs af then
        (case parse_data ev fs af of
           Inl err \<Rightarrow> Inl err
         | Inr r \<Rightarrow> scan ev fs afs (add_record r s))
      else scan ev fs afs s)"


subsection \<open>Enumerating the candidates\<close>

text \<open>\<open>glob._ishidden\<close>\<close>

definition ishidden :: "string \<Rightarrow> bool" where
  "ishidden x = (case x of [] \<Rightarrow> False | c # _ \<Rightarrow> c = CHR ''.'')"

text \<open>
  \<open>glob.glob(root + '/**/*' + e, recursive=True)\<close> below a node, as paths relative to
  it: the entries of the directory whose names match \<open>*e\<close>, then, for each visible
  subdirectory in turn (a link to a directory counts), the matches below it. A name that
  starts with a dot is matched by neither \<open>*\<close> nor \<open>**\<close>.
\<close>

fun glob_rec :: "string \<Rightarrow> node \<Rightarrow> path list" where
  "glob_rec e (File t) = []"
| "glob_rec e (Link None) = []"
| "glob_rec e (Link (Some n)) = glob_rec e n"
| "glob_rec e (Dir es) =
     map (\<lambda>x. [x]) (filter (\<lambda>x. \<not> ishidden x \<and> endswith x e) (map fst es)) @
     concat (map (\<lambda>(x, c). if \<not> ishidden x \<and> is_dir_node c
                            then map ((#) x) (glob_rec e c) else []) es)"

definition extensions :: "string list" where
  "extensions = [''.fits'', ''.sf'', ''.rf'', ''.fil'']"

text \<open>
  One call of \<open>glob.glob\<close> (line 179). When the root itself contains a pattern
  character, \<open>glob\<close> expands it as a pattern; that result is left to the environment.
\<close>

definition glob_recursive :: "env \<Rightarrow> node \<Rightarrow> path \<Rightarrow> string \<Rightarrow> path list" where
  "glob_recursive ev fs rt e =
     (if has_magic (path_str rt) then glob_magic ev (path_str rt @ ''/**/*'' @ e)
      else case stat fs rt of
             None \<Rightarrow> []
           | Some n \<Rightarrow> map ((@) rt) (glob_rec e n))"

definition available_files :: "env \<Rightarrow> node \<Rightarrow> path \<Rightarrow> path list" where
  "available_files ev fs rt = concat (map (glob_recursive ev fs rt) extensions)"

subsection \<open>The report\<close>

text \<open>The text written between \<open>open\<close> and \<open>close\<close> (lines 252 to 268).\<close>

definition report_text :: "env \<Rightarrow> string \<Rightarrow> string \<Rightarrow> string \<Rightarrow> summary \<Rightarrow> string" where
  "report_text ev data_directory owner generator s =
     (let string_center_freqs = map (str_float ev) (center_freqs s) in
      ''README file for '' @ data_directory @ '' generated by '' @ script_file ev @ ''.'' @ newline @
      ''Owner: '' @ owner @ newline @
      ''Generated by: '' @ generator @ newline @
      ''Started at '' @ start_timestamp ev @ ''; completed at '' @ end_timestamp ev @ ''.'' @ newline @
      ''Number of files: '' @ str_nat (n_files s) @ newline @
      ''Total size (GB): '' @ fmt_2f ev (tot_size s) @ newline @
      ''File types: '' @ join '', '' (sort (exts s)) @ newline @
      ''Telescope: '' @ join '', '' (sort (telescopes s)) @ newline @
      ''Observers: '' @ join '', '' (sort (observers s)) @ newline @
      ''Project IDs: '' @ join '', '' (sort (project_ids s)) @ newline @
      ''Sources: '' @ join '', '' (sort (sources s)) @ newline @
      ''Modes: '' @ join '', '' (sort (modes s)) @ newline @
      ''Center frequencies (MHz): '' @ join '', '' (sort string_center_freqs) @ newline @
      newline @
      ''Notes:'')"

subsection \<open>The script\<close>

record args =
  arg_d :: "string option"
  arg_n :: "string option"
  arg_l :: "string option"
  arg_o :: "string option"
  arg_g :: "string option"
  arg_v :: "string option"

text \<open>\<open>if args.x: ... else: default\<close>: an empty string is false.\<close>

definition given :: "string option \<Rightarrow> string \<Rightarrow> string" where
  "given a dflt = (case a of None \<Rightarrow> dflt | Some s \<Rightarrow> if s \<noteq> [] then s else dflt)"

text \<open>\<open>bool(s)\<close> on a string, which is what \<open>type=bool\<close> makes argparse apply.\<close>

definition py_bool :: "string \<Rightarrow> bool" where
  "py_bool s = (s \<noteq> [])"

text \<open>
  Lines 90 to 96: \<open>args.v\<close> is \<open>None\<close> when the option is absent and the value of
  \<open>bool\<close> on its text otherwise; \<open>Inl\<close> is the message printed before
  \<open>sys.exit()\<close>.
\<close>

definition resolve_verbose :: "string option \<Rightarrow> string + bool" where
  "resolve_verbose raw =
     (case map_option py_bool raw of
        None \<Rightarrow> Inr False
      | Some args_v \<Rightarrow>
          if args_v then
            (let verbose = args_v in
             if verbose \<notin> set [True, False] then Inl ''-v must be True or False!''
             else Inr verbose)
          else Inr False)"

datatype outcome = Exited string | Raised error | Wrote path string node

record config =
  data_directory :: string
  output_name :: string
  output_directory :: string
  owner :: string
  generator :: string

text \<open>Lines 69 to 89.\<close>

definition settings :: "env \<Rightarrow> args \<Rightarrow> config" where
  "settings ev a = \<lparr>
     data_directory = given (arg_d a) (path_str (getcwd ev) @ ''/''),
     output_name = given (arg_n a) ''README.txt'',
     output_directory = given (arg_l a) (path_str (getcwd ev) @ ''/''),
     owner = given (arg_o a) ''Unknown'',
     generator = given (arg_g a) (getuser ev) \<rparr>"

text \<open>The path the guard of line 160 tests, in the initial working directory.\<close>

definition guarded_path :: "env \<Rightarrow> config \<Rightarrow> path" where
  "guarded_path ev c =
     resolve (getcwd ev) (os_path_join (output_directory c) (output_name c))"

text \<open>
  The path line 252 opens: \<open>output_name\<close>, after \<open>os.chdir(data_directory)\<close> and
  \<open>os.chdir(output_directory)\<close>.
\<close>

definition written_path :: "env \<Rightarrow> config \<Rightarrow> path" where
  "written_path ev c =
     (let cwd1 = resolve (getcwd ev) (data_directory c);
          cwd2 = resolve cwd1 (output_directory c)
      in resolve cwd2 (output_name c))"

text \<open>Lines 154 to 162; \<open>Some\<close> is the message printed before \<open>sys.exit()\<close>.\<close>

definition preconditions :: "env \<Rightarrow> node \<Rightarrow> config \<Rightarrow> string option" where
  "preconditions ev fs c =
     (if \<not> isdir fs (resolve (getcwd ev) (data_directory c)) then
        Some (''Data directory '' @ data_directory c @ '' does not exist!'')
      else if \<not> isdir fs (resolve (getcwd ev) (output_directory c)) then
        Some (''Output directory '' @ output_directory c @ '' does not exist!'')
      else if exists fs (guarded_path ev c) then
        Some (''There is already a file named '' @
              os_path_join (output_directory c) (output_name c) @ ''!'')
      else None)"

text \<open>Lines 173 to 179: the candidates, found after the change of directory.\<close>

definition candidates :: "env \<Rightarrow> node \<Rightarrow> config \<Rightarrow> path list" where
  "candidates ev fs c =
     (let cwd1 = resolve (getcwd ev) (data_directory c)
      in available_files ev fs (resolve cwd1 (data_directory c)))"

text \<open>Lines 250 to 268.\<close>

definition write_report :: "env \<Rightarrow> node \<Rightarrow> config \<Rightarrow> summary \<Rightarrow> outcome" where
  "write_report ev fs c s =
     (let cwd1 = resolve (getcwd ev) (data_directory c) in
      if \<not> isdir fs (resolve cwd1 (output_directory c)) then Raised OSError
      else
        let txt = report_text ev (data_directory c) (owner c) (generator c) s in
        case write_at fs (written_path ev c) txt of
          None \<Rightarrow> Raised OSError
        | Some fs' \<Rightarrow> Wrote (written_path ev c) txt fs')"

definition run :: "env \<Rightarrow> node \<Rightarrow> args \<Rightarrow> outcome" where
  "run ev fs a =
     (let c = settings ev a in
      case resolve_verbose (arg_v a) of
        Inl msg \<Rightarrow> Exited msg
      | Inr verbose \<Rightarrow>
          (case preconditions ev fs c of
             Some msg \<Rightarrow> Exited msg
           | None \<Rightarrow>
               let available = candidates ev fs c in
               if length available > 10 ^ 3 \<and> answer ev = None then Raised EOFError
               else if length available > 10 ^ 3 \<and> answer ev \<noteq> Some ''Y'' then Exited []
               else
                 (case scan ev fs available init_summary of
                    Inl err \<Rightarrow> Raised err
                  | Inr s \<Rightarrow> write_report ev fs c s)))"

text \<open>The file system a run leaves behind.\<close>

definition fs_after :: "node \<Rightarrow> outcome \<Rightarrow> node" where
  "fs_after fs out = (case out of Wrote p txt fs' \<Rightarrow> fs' | _ \<Rightarrow> fs)"

subsection \<open>Trimming, as the specification words it\<close>


subsection \<open>Auxiliary notions for the statements\<close>

text \<open>The records the scan loop folds: one for each candidate that is not a link.\<close>

definition records_of :: "env \<Rightarrow> node \<Rightarrow> path list \<Rightarrow> file_record list" where
  "records_of ev fs afs =
     concat (map (\<lambda>af. if islink fs af then []
                        else (case parse_data ev fs af of Inl err \<Rightarrow> [] | Inr r \<Rightarrow> [r])) afs)"

text \<open>The size in bytes that \<open>os.path.getsize\<close> reports, 0 where it raises.\<close>

definition bytes_of :: "env \<Rightarrow> node \<Rightarrow> path \<Rightarrow> nat" where
  "bytes_of ev fs p = (case getsize ev fs p of Inl err \<Rightarrow> 0 | Inr b \<Rightarrow> b)"


subsection \<open>A sample directory\<close>

text \<open>
  A small file system and environment on which the theorems below are instantiated: a
  data directory with a PSRFITS file, a link, a hidden file, a subdirectory holding two
  filterbank files that describe one band in the two channel orders, and a directory
  \<open>out\<close> both below the data directory and below the working directory \<open>/w\<close>.
\<close>

definition demo_psr :: psr_header where
  "demo_psr = \<lparr> TELESCOP = '' GBT '', OBSERVER = ''Smith'', PROJID = ''P001'',
     SRC_NAME = ''J0000+00'', OBS_MODE = ''SEARCH'', STT_IMJD = 59000, STT_SMJD = 43200,
     OBSFREQ = 1400 \<rparr>"

definition demo_fil :: fil_header where
  "demo_fil = \<lparr> h_telescope = ''GBT'', h_source = ''J0000+00 '', tstart = 59000,
     fch1 = 1500, foff = - 1, nchans = 100 \<rparr>"

definition demo_fil_asc :: fil_header where
  "demo_fil_asc = \<lparr> h_telescope = ''GBT'', h_source = ''J0000+00'', tstart = 59000,
     fch1 = 1401, foff = 1, nchans = 100 \<rparr>"

definition demo_env_at :: "string \<Rightarrow> string \<Rightarrow> env" where
  "demo_env_at started ended = \<lparr> getcwd = [''w''], getuser = ''me'',
     script_file = ''make_readme.py'', answer = None,
     start_timestamp = started, end_timestamp = ended,
     PyPSRFITS = (\<lambda>p. if basename p = ''a.fits'' then Some demo_psr else None),
     FilReader = (\<lambda>p. if basename p = ''b.fil'' then Some demo_fil
                       else if basename p = ''c.fil'' then Some demo_fil_asc else None),
     dir_size = (\<lambda>p. 4096),
     fmt_2f = (\<lambda>x. ''0.00''),
     str_float = (\<lambda>x. if x = 1400 then ''1400.0'' else if x = 1450.5 then ''1450.5'' else ''nan''),
     glob_magic = (\<lambda>s. []) \<rparr>"

definition demo_env :: env where
  "demo_env = demo_env_at ''2024-01-01 00:00:00'' ''2024-01-01 00:00:01''"

definition later_env :: env where
  "later_env = demo_env_at ''2024-01-02 00:00:00'' ''2024-01-02 00:00:01''"

text \<open>The tree, with the entries of \<open>/data/out\<close> left open.\<close>

definition demo_tree :: "(string \<times> node) list \<Rightarrow> node" where
  "demo_tree outs = Dir [
     (''data'', Dir [
        (''a.fits'', File ''abc''),
        (''l.fits'', Link (Some (File ''zz''))),
        (''.h.fits'', File ''q''),
        (''sub'', Dir [(''b.fil'', File ''hello''), (''c.fil'', File ''hi'')]),
        (''out'', Dir outs)]),
     (''w'', Dir [(''out'', Dir [])])]"

definition demo_fs :: node where
  "demo_fs = demo_tree []"

text \<open>A data directory that holds only links to data files.\<close>

definition links_fs :: node where
  "links_fs = Dir [(''data'', Dir [(''x.fits'', Link (Some (File ''abc''))),
                                  (''y.fil'', Link (Some (File ''de'')))])]"


text \<open>\<open>-d /data -l /w/out\<close>, and the same with a relative output directory.\<close>

definition demo_args :: args where
  "demo_args = \<lparr> arg_d = Some ''/data'', arg_n = None, arg_l = Some ''/w/out'', arg_o = None,
     arg_g = None, arg_v = None \<rparr>"

definition rel_args :: args where
  "rel_args = \<lparr> arg_d = Some ''/data'', arg_n = None, arg_l = Some ''out'', arg_o = None,
     arg_g = None, arg_v = None \<rparr>"

definition demo_rec_a :: file_record where
  "demo_rec_a = \<lparr> path = ''/data'', file_name = ''a.fits'', ext = ''.fits'', size_gb = 3 / 10 ^ 9,
     telescope = ''GBT'', observer = ''Smith'', project_id = ''P001'', source = ''J0000+00'',
     mode = ''SEARCH'', MJD = 59000.5, center_freq = 1400 \<rparr>"

definition demo_rec_b :: file_record where
  "demo_rec_b = \<lparr> path = ''/data/sub'', file_name = ''b.fil'', ext = ''.fil'', size_gb = 5 / 10 ^ 9,
     telescope = ''GBT'', observer = ''Unknown'', project_id = ''Unknown'', source = ''J0000+00'',
     mode = ''Unknown'', MJD = 59000, center_freq = 1450.5 \<rparr>"

definition demo_rec_c :: file_record where
  "demo_rec_c = \<lparr> path = ''/data/sub'', file_name = ''c.fil'', ext = ''.fil'', size_gb = 2 / 10 ^ 9,
     telescope = ''GBT'', observer = ''Unknown'', project_id = ''Unknown'', source = ''J0000+00'',
     mode = ''Unknown'', MJD = 59000, center_freq = 1450.5 \<rparr>"

definition demo_summary :: summary where
  "demo_summary = \<lparr> n_files = 3, tot_size = 10 / 10 ^ 9, exts = [''.fits'', ''.fil''],
     telescopes = [''GBT''], observers = [''Smith'', ''Unknown''],
     project_ids = [''P001'', ''Unknown''], sources = [''J0000+00''],
     modes = [''SEARCH'', ''Unknown''], MJDs = [59000.5, 59000],
     center_freqs = [1400, 1450.5] \<rparr>"

text \<open>The report of the sample directory, as a function of the two timestamps.\<close>

definition demo_report :: "string \<Rightarrow> string \<Rightarrow> string" where
  "demo_report started ended =
    ''README file for /data generated by make_readme.py.'' @ newline @
    ''Owner: Unknown'' @ newline @
    ''Generated by: me'' @ newline @
    ''Started at '' @ started @ ''; completed at '' @ ended @ ''.'' @ newline @
    ''Number of files: 3'' @ newline @
    ''Total size (GB): 0.00'' @ newline @
    ''File types: .fil, .fits'' @ newline @
    ''Telescope: GBT'' @ newline @
    ''Observers: Smith, Unknown'' @ newline @
    ''Project IDs: P001, Unknown'' @ newline @
    ''Sources: J0000+00'' @ newline @
    ''Modes: SEARCH, Unknown'' @ newline @
    ''Center frequencies (MHz): 1400.0, 1450.5'' @ newline @
    newline @ ''Notes:''"


section \<open>Properties\<close>

subsection \<open>Writing a file\<close>

lemma map_of_update_entry:
  "map_of (update_entry c m es) = (map_of es)(c \<mapsto> m)"
  by (induction es) auto

lemma stat_Link: "stat (Link (Some m)) q = stat m q"
  by (cases q) (simp_all add: stat_def)

lemma stat_Dir_Cons:
  "stat (Dir es) (x # xs) = (case map_of es x of None \<Rightarrow> None | Some m \<Rightarrow> stat m xs)"
  by (simp add: stat_def split: option.splits)

lemma write_leaf_deref:
  "write_leaf (Some n) t = Some n' \<Longrightarrow> deref n' = Some (File t)"
  by (induction "Some n" t arbitrary: n n' rule: write_leaf.induct)
     (auto split: option.splits)

lemma write_leaf_not_dir:
  "write_leaf (Some n) t = Some n' \<Longrightarrow> deref n \<noteq> Some (Dir es)"
  by (induction "Some n" t arbitrary: n n' rule: write_leaf.induct)
     (auto split: option.splits)

lemma not_dir_no_isdir: "(\<And>es. deref n \<noteq> Some (Dir es)) \<Longrightarrow> \<not> isdir n q"
  by (cases q) (auto simp: isdir_def stat_def split: option.splits node.splits)

lemma write_at_stat:
  "write_at fs p t = Some fs' \<Longrightarrow> stat fs' p = Some (File t)"
proof (induction fs p t arbitrary: fs' rule: write_at.induct)
  case (1 n t)
  then show ?case by (simp add: stat_def write_leaf_deref)
next
  case (4 m c cs t)
  then show ?case by (auto simp: stat_Link split: option.splits)
next
  case (5 es c cs t)
  show ?case
  proof (cases "cs = []")
    case True
    with "5.prems" obtain m' where m: "write_leaf (map_of es c) t = Some m'"
      and f: "fs' = Dir (update_entry c m' es)" by (auto split: option.splits)
    from m have "deref m' = Some (File t)"
      by (cases "map_of es c") (auto simp: write_leaf_deref)
    with f True show ?thesis by (simp add: stat_def map_of_update_entry)
  next
    case False
    with "5.prems" obtain m m' where m: "map_of es c = Some m"
      and w: "write_at m cs t = Some m'" and f: "fs' = Dir (update_entry c m' es)"
      by (auto split: option.splits)
    from "5.IH" [OF False m w] f show ?thesis
      by (simp add: stat_Dir_Cons map_of_update_entry)
  qed
qed simp_all

lemma write_at_isdir:
  "write_at fs p t = Some fs' \<Longrightarrow> isdir fs q \<Longrightarrow> isdir fs' q"
proof (induction fs p t arbitrary: fs' q rule: write_at.induct)
  case (1 n t)
  from "1.prems"(1) have "\<And>es. deref n \<noteq> Some (Dir es)" by (simp add: write_leaf_not_dir)
  then have "\<not> isdir n q" by (rule not_dir_no_isdir)
  with "1.prems"(2) show ?case by simp
next
  case (4 m c cs t)
  from "4.prems"(1) obtain m' where w: "write_at m (c # cs) t = Some m'"
    and f: "fs' = Link (Some m')" by (auto split: option.splits)
  from "4.prems"(2) have "isdir m q" by (simp add: isdir_def stat_Link)
  from "4.IH" [OF w this] f show ?case by (simp add: isdir_def stat_Link)
next
  case (5 es c cs t)
  show ?case
  proof (cases q)
    case Nil
    with "5.prems"(1) show ?thesis by (auto simp: isdir_def stat_def split: option.splits if_splits)
  next
    case (Cons x xs)
    show ?thesis
    proof (cases "x = c")
      case False
      with "5.prems" Cons show ?thesis
        by (auto simp: isdir_def stat_Dir_Cons map_of_update_entry split: option.splits if_splits)
    next
      case True
      from "5.prems"(2) Cons True obtain m where m: "map_of es c = Some m" and d: "isdir m xs"
        by (auto simp: isdir_def stat_Dir_Cons split: option.splits)
      show ?thesis
      proof (cases "cs = []")
        case True
        with "5.prems"(1) m obtain m' where "write_leaf (Some m) t = Some m'"
          by (auto split: option.splits)
        then have "\<And>es. deref m \<noteq> Some (Dir es)" by (simp add: write_leaf_not_dir)
        then have "\<not> isdir m xs" by (rule not_dir_no_isdir)
        with d show ?thesis by simp
      next
        case False
        with "5.prems"(1) m obtain m' where w: "write_at m cs t = Some m'"
          and f: "fs' = Dir (update_entry c m' es)" by (auto split: option.splits)
        from "5.IH" [OF False m w d] f Cons \<open>x = c\<close> show ?thesis
          by (simp add: isdir_def stat_Dir_Cons map_of_update_entry)
      qed
    qed
  qed
qed simp_all

subsection \<open>Facts about the sample directory\<close>

lemma demo_getsize:
  "getsize (demo_env_at st en) (demo_tree outs) [''data'', ''a.fits''] = Inr 3"
  "getsize (demo_env_at st en) (demo_tree outs) [''data'', ''sub'', ''b.fil''] = Inr 5"
  "getsize (demo_env_at st en) (demo_tree outs) [''data'', ''sub'', ''c.fil''] = Inr 2"
  by (simp_all add: getsize_def stat_def demo_tree_def)

lemma demo_ext:
  "snd (splitext (basename [''data'', ''a.fits''])) = ''.fits''"
  "snd (splitext (basename [''data'', ''sub'', ''b.fil''])) = ''.fil''"
  "snd (splitext (basename [''data'', ''sub'', ''c.fil''])) = ''.fil''"
  by (simp_all add: splitext_def basename_def)

lemma demo_readers:
  "PyPSRFITS (demo_env_at st en) [''data'', ''a.fits''] = Some demo_psr"
  "FilReader (demo_env_at st en) [''data'', ''sub'', ''b.fil''] = Some demo_fil"
  "FilReader (demo_env_at st en) [''data'', ''sub'', ''c.fil''] = Some demo_fil_asc"
  by (simp_all add: demo_env_at_def basename_def)

lemma demo_names:
  "basename [''data'', ''a.fits''] = ''a.fits''"
  "basename [''data'', ''sub'', ''b.fil''] = ''b.fil''"
  "basename [''data'', ''sub'', ''c.fil''] = ''c.fil''"
  "path_str (butlast [''data'', ''a.fits'']) = ''/data''"
  "path_str (butlast [''data'', ''sub'', ''b.fil'']) = ''/data/sub''"
  "path_str (butlast [''data'', ''sub'', ''c.fil'']) = ''/data/sub''"
  by (simp_all add: basename_def path_str_def)

lemma demo_strip:
  "strip '' GBT '' = ''GBT''" "strip ''GBT'' = ''GBT''" "strip ''Smith'' = ''Smith''"
  "strip ''P001'' = ''P001''" "strip ''J0000+00'' = ''J0000+00''"
  "strip ''J0000+00 '' = ''J0000+00''" "strip ''SEARCH'' = ''SEARCH''"
  by (simp_all add: strip_def isspace_def)

lemma demo_parse:
  "parse_data (demo_env_at st en) (demo_tree outs) [''data'', ''a.fits''] = Inr demo_rec_a"
  "parse_data (demo_env_at st en) (demo_tree outs) [''data'', ''sub'', ''b.fil''] = Inr demo_rec_b"
  "parse_data (demo_env_at st en) (demo_tree outs) [''data'', ''sub'', ''c.fil''] = Inr demo_rec_c"
  unfolding parse_data_def demo_ext demo_getsize demo_readers
  by (simp_all add: Let_def demo_names path_str_def demo_psr_def demo_fil_def demo_fil_asc_def
      demo_strip fil_center_freq_def demo_rec_a_def demo_rec_b_def demo_rec_c_def)

lemma demo_islink:
  "\<not> islink (demo_tree outs) [''data'', ''a.fits'']"
  "islink (demo_tree outs) [''data'', ''l.fits'']"
  "\<not> islink (demo_tree outs) [''data'', ''sub'', ''b.fil'']"
  "\<not> islink (demo_tree outs) [''data'', ''sub'', ''c.fil'']"
  by (simp_all add: islink_def demo_tree_def)



subsection \<open>The extractor\<close>






subsection \<open>The aggregator\<close>



lemma fold_add_record:
  "fold add_record recs s = \<lparr>
     n_files = n_files s + length recs,
     tot_size = tot_size s + sum_list (map size_gb recs),
     exts = fold (\<lambda>r. append_new (ext r)) recs (exts s),
     telescopes = fold (\<lambda>r. append_new (telescope r)) recs (telescopes s),
     observers = fold (\<lambda>r. append_new (observer r)) recs (observers s),
     project_ids = fold (\<lambda>r. append_new (project_id r)) recs (project_ids s),
     sources = fold (\<lambda>r. append_new (source r)) recs (sources s),
     modes = fold (\<lambda>r. append_new (mode r)) recs (modes s),
     MJDs = fold (\<lambda>r. append_new (MJD r)) recs (MJDs s),
     center_freqs = fold (\<lambda>r. append_new (center_freq r)) recs (center_freqs s) \<rparr>"
proof (induction recs arbitrary: s)
  case Nil
  show ?case by simp
next
  case (Cons r recs)
  show ?case by (simp add: Cons.IH) (simp add: add_record_def)
qed

lemma fold_add_record_fields:
  "n_files (fold add_record recs s) = n_files s + length recs"
  "tot_size (fold add_record recs s) = tot_size s + sum_list (map size_gb recs)"
  "exts (fold add_record recs s) = fold (\<lambda>r. append_new (ext r)) recs (exts s)"
  "telescopes (fold add_record recs s) = fold (\<lambda>r. append_new (telescope r)) recs (telescopes s)"
  "observers (fold add_record recs s) = fold (\<lambda>r. append_new (observer r)) recs (observers s)"
  "project_ids (fold add_record recs s) = fold (\<lambda>r. append_new (project_id r)) recs (project_ids s)"
  "sources (fold add_record recs s) = fold (\<lambda>r. append_new (source r)) recs (sources s)"
  "modes (fold add_record recs s) = fold (\<lambda>r. append_new (mode r)) recs (modes s)"
  "MJDs (fold add_record recs s) = fold (\<lambda>r. append_new (MJD r)) recs (MJDs s)"
  "center_freqs (fold add_record recs s) = fold (\<lambda>r. append_new (center_freq r)) recs (center_freqs s)"
  by (simp_all add: fold_add_record [of recs s])



lemma parse_data_size:
  assumes "parse_data ev fs p = Inr r"
  shows "size_gb r = real (bytes_of ev fs p) / 10 ^ 9"
proof (cases "getsize ev fs p")
  case (Inl err)
  with assms show ?thesis by (simp add: parse_data_def)
next
  case (Inr b)
  with assms show ?thesis
    by (auto simp: parse_data_def Let_def bytes_of_def split: if_splits option.splits)
qed

lemma records_of_simps:
  "records_of ev fs [] = []"
  "islink fs af \<Longrightarrow> records_of ev fs (af # afs) = records_of ev fs afs"
  "\<not> islink fs af \<Longrightarrow> parse_data ev fs af = Inr r \<Longrightarrow>
     records_of ev fs (af # afs) = r # records_of ev fs afs"
  by (simp_all add: records_of_def)

lemma scan_fold:
  "scan ev fs afs s = Inr s' \<Longrightarrow> s' = fold add_record (records_of ev fs afs) s"
proof (induction afs arbitrary: s)
  case Nil
  then show ?case by (simp add: records_of_simps)
next
  case (Cons af afs)
  show ?case
  proof (cases "islink fs af")
    case True
    with Cons show ?thesis by (simp add: records_of_simps)
  next
    case False
    show ?thesis
    proof (cases "parse_data ev fs af")
      case (Inl err)
      with False Cons.prems show ?thesis by simp
    next
      case (Inr r)
      with False Cons.prems have "scan ev fs afs (add_record r s) = Inr s'" by simp
      from Cons.IH [OF this] show ?thesis using False Inr by (simp add: records_of_simps)
    qed
  qed
qed

lemma scan_sizes:
  "scan ev fs afs s = Inr s' \<Longrightarrow>
   map size_gb (records_of ev fs afs) =
   map (\<lambda>p. real (bytes_of ev fs p) / 10 ^ 9) (filter (\<lambda>p. \<not> islink fs p) afs)"
proof (induction afs arbitrary: s)
  case Nil
  then show ?case by (simp add: records_of_simps)
next
  case (Cons af afs)
  show ?case
  proof (cases "islink fs af")
    case True
    with Cons show ?thesis by (simp add: records_of_simps)
  next
    case False
    show ?thesis
    proof (cases "parse_data ev fs af")
      case (Inl err)
      with False Cons.prems show ?thesis by simp
    next
      case (Inr r)
      with False Cons.prems have "scan ev fs afs (add_record r s) = Inr s'" by simp
      from Cons.IH [OF this] parse_data_size [OF Inr] show ?thesis
        using False Inr by (simp add: records_of_simps)
    qed
  qed
qed





subsection \<open>The scan loop\<close>



lemma lstat_snoc:
  "lstat n (p @ [x]) = (case stat n p of Some (Dir es) \<Rightarrow> map_of es x | _ \<Rightarrow> None)"
proof (induction p arbitrary: n)
  case Nil
  show ?case by (simp add: stat_def split: option.splits node.splits)
next
  case (Cons c p)
  show ?case
  proof (cases "deref n")
    case None
    then show ?thesis by (simp add: stat_def)
  next
    case (Some d)
    show ?thesis
    proof (cases d)
      case (Dir es)
      show ?thesis
      proof (cases "map_of es c")
        case None
        with Some Dir show ?thesis by (simp add: stat_def)
      next
        case (Some m)
        with \<open>deref n = Some d\<close> Dir Cons.IH [of m] show ?thesis by (simp add: stat_def)
      qed
    qed (use Some in \<open>simp_all add: stat_def\<close>)
  qed
qed

lemma scan_all_links:
  "\<forall>p \<in> set afs. islink fs p \<Longrightarrow> scan ev fs afs s = Inr s"
  by (induction afs) simp_all

lemma scan_filter_links:
  "scan ev fs afs s = scan ev fs (filter (\<lambda>p. \<not> islink fs p) afs) s"
proof (induction afs arbitrary: s)
  case Nil
  show ?case by simp
next
  case (Cons af afs)
  show ?case
  proof (cases "islink fs af")
    case True
    then show ?thesis by (simp add: Cons.IH)
  next
    case False
    then show ?thesis by (cases "parse_data ev fs af") (simp_all add: Cons.IH)
  qed
qed

lemma records_of_length:
  "scan ev fs afs s = Inr s' \<Longrightarrow>
   length (records_of ev fs afs) = length (filter (\<lambda>p. \<not> islink fs p) afs)"
  using scan_sizes [of ev fs afs s s'] by (metis length_map)

lemma glob_rec_links_only:
  assumes "\<forall>(x, c) \<in> set es. \<exists>t. c = Link (Some (File t))"
  shows "set (glob_rec e (Dir es)) \<subseteq> (\<lambda>x. [x]) ` fst ` set es"
proof -
  have "\<forall>(x, c) \<in> set es. \<not> is_dir_node c"
    using assms by (auto simp: is_dir_node_def)
  then have "concat (map (\<lambda>(x, c). if \<not> ishidden x \<and> is_dir_node c
                            then map ((#) x) (glob_rec e c) else []) es) = []"
    by (induction es) auto
  then show ?thesis by auto
qed

text \<open>
  Claim C8. A candidate that is a symbolic link is skipped: the loop continues with the
  summary it had, so the result of a scan is the result of the scan of the candidates that
  are not links, and the file count of a scan that ends is the number of those candidates.
  Hence a scan whose candidates are all links ends with the count 0, the total size 0 and
  empty lists; this is the case for a searched directory (its path free of pattern
  characters) whose entries are all links to files.
\<close>

theorem symlinks_skipped:
  "(islink fs af \<longrightarrow> scan ev fs (af # afs) s = scan ev fs afs s) \<and>
   scan ev fs afs s = scan ev fs (filter (\<lambda>p. \<not> islink fs p) afs) s \<and>
   (scan ev fs afs init_summary = Inr s' \<longrightarrow>
      n_files s' = length (filter (\<lambda>p. \<not> islink fs p) afs)) \<and>
   ((\<forall>p \<in> set afs. islink fs p) \<longrightarrow>
      (\<exists>r. scan ev fs afs init_summary = Inr r \<and>
           n_files r = 0 \<and> tot_size r = 0 \<and> telescopes r = [])) \<and>
   (\<not> has_magic (path_str rt) \<and> stat fs rt = Some (Dir es) \<and>
    (\<forall>(x, c) \<in> set es. \<exists>t. c = Link (Some (File t))) \<longrightarrow>
      (\<exists>r. scan ev fs (available_files ev fs rt) init_summary = Inr r \<and>
           n_files r = 0 \<and> tot_size r = 0 \<and> telescopes r = []))"
proof -
  have 5: "(\<forall>p \<in> set afs. islink fs p) \<longrightarrow>
      (\<exists>r. scan ev fs afs init_summary = Inr r \<and>
           n_files r = 0 \<and> tot_size r = 0 \<and> telescopes r = [])"
    by (simp add: scan_all_links init_summary_def)
  have 1: "islink fs af \<longrightarrow> scan ev fs (af # afs) s = scan ev fs afs s" by simp
  have 2: "scan ev fs afs s = scan ev fs (filter (\<lambda>p. \<not> islink fs p) afs) s"
    by (rule scan_filter_links)
  have 3: "scan ev fs afs init_summary = Inr s' \<longrightarrow>
      n_files s' = length (filter (\<lambda>p. \<not> islink fs p) afs)"
  proof
    assume a: "scan ev fs afs init_summary = Inr s'"
    from scan_fold [OF a] records_of_length [OF a]
    show "n_files s' = length (filter (\<lambda>p. \<not> islink fs p) afs)"
      by (simp add: fold_add_record_fields init_summary_def)
  qed
  have 4: "\<not> has_magic (path_str rt) \<and> stat fs rt = Some (Dir es) \<and>
    (\<forall>(x, c) \<in> set es. \<exists>t. c = Link (Some (File t))) \<longrightarrow>
      (\<exists>r. scan ev fs (available_files ev fs rt) init_summary = Inr r \<and>
           n_files r = 0 \<and> tot_size r = 0 \<and> telescopes r = [])"
  proof
    assume h: "\<not> has_magic (path_str rt) \<and> stat fs rt = Some (Dir es) \<and>
      (\<forall>(x, c) \<in> set es. \<exists>t. c = Link (Some (File t)))"
    have "\<forall>p \<in> set (available_files ev fs rt). islink fs p"
    proof
      fix p assume "p \<in> set (available_files ev fs rt)"
      then obtain e where "p \<in> set (map ((@) rt) (glob_rec e (Dir es)))"
        using h by (auto simp: available_files_def glob_recursive_def)
      then obtain x where x: "x \<in> fst ` set es" and p: "p = rt @ [x]"
        using glob_rec_links_only [of es e] h by auto
      from x obtain c where c: "map_of es x = Some c"
        by (metis map_of_eq_None_iff not_Some_eq)
      then have "(x, c) \<in> set es" by (rule map_of_SomeD)
      with h obtain t where "c = Link (Some (File t))" by auto
      with c p h show "islink fs p" by (simp add: islink_def lstat_snoc)
    qed
    then have "scan ev fs (available_files ev fs rt) init_summary = Inr init_summary"
      by (rule scan_all_links)
    then show "\<exists>r. scan ev fs (available_files ev fs rt) init_summary = Inr r \<and>
           n_files r = 0 \<and> tot_size r = 0 \<and> telescopes r = []"
      by (simp add: init_summary_def)
  qed
  from 1 2 3 4 5 show ?thesis by blast
qed

subsection \<open>The run and the report\<close>

lemma run_Wrote:
  assumes "run ev fs a = Wrote p txt fs'"
  shows "\<exists>s. preconditions ev fs (settings ev a) = None \<and>
             scan ev fs (candidates ev fs (settings ev a)) init_summary = Inr s \<and>
             txt = report_text ev (data_directory (settings ev a)) (owner (settings ev a))
                     (generator (settings ev a)) s \<and>
             p = written_path ev (settings ev a) \<and>
             write_at fs p txt = Some fs'"
proof -
  define c where "c = settings ev a"
  obtain verbose where v: "resolve_verbose (arg_v a) = Inr verbose"
    using assms unfolding run_def Let_def by (cases "resolve_verbose (arg_v a)") simp_all
  have pre: "preconditions ev fs c = None"
    using assms v unfolding run_def Let_def c_def
    by (cases "preconditions ev fs (settings ev a)") simp_all
  obtain s where s: "scan ev fs (candidates ev fs c) init_summary = Inr s"
    and w: "write_report ev fs c s = Wrote p txt fs'"
    using assms v pre unfolding run_def Let_def c_def
    by (cases "scan ev fs (candidates ev fs (settings ev a)) init_summary")
       (simp_all split: if_splits)
  from w have "txt = report_text ev (data_directory c) (owner c) (generator c) s \<and>
      p = written_path ev c \<and> write_at fs p txt = Some fs'"
    unfolding write_report_def Let_def
    by (cases "write_at fs (written_path ev c)
                 (report_text ev (data_directory c) (owner c) (generator c) s)")
       (simp_all split: if_splits)
  with pre s show ?thesis unfolding c_def by blast
qed





subsection \<open>The sample run\<close>

lemma resolve_verbose_Inr:
  "resolve_verbose raw = Inr (raw \<noteq> None \<and> raw \<noteq> Some [])"
  by (cases raw) (simp_all add: resolve_verbose_def py_bool_def)

lemma demo_resolve:
  "resolve [''w''] ''/data'' = [''data'']"
  "resolve [''data''] ''/data'' = [''data'']"
  "resolve [''w''] ''/w/out'' = [''w'', ''out'']"
  "resolve [''data''] ''/w/out'' = [''w'', ''out'']"
  "resolve [''w''] ''out'' = [''w'', ''out'']"
  "resolve [''data''] ''out'' = [''data'', ''out'']"
  "resolve [''w'', ''out''] ''README.txt'' = [''w'', ''out'', ''README.txt'']"
  "resolve [''data'', ''out''] ''README.txt'' = [''data'', ''out'', ''README.txt'']"
  "resolve [''w''] ''/w/out/README.txt'' = [''w'', ''out'', ''README.txt'']"
  "resolve [''w''] ''out/README.txt'' = [''w'', ''out'', ''README.txt'']"
  by (simp_all add: resolve_def isabs_def)

lemma demo_join:
  "os_path_join ''/w/out'' ''README.txt'' = ''/w/out/README.txt''"
  "os_path_join ''out'' ''README.txt'' = ''out/README.txt''"
  by (simp_all add: os_path_join_def isabs_def)

lemma demo_fields:
  "getcwd (demo_env_at st en) = [''w'']"
  "getuser (demo_env_at st en) = ''me''"
  "answer (demo_env_at st en) = None"
  by (simp_all add: demo_env_at_def)

lemma demo_candidates:
  assumes "outs = [] \<or> outs = [(''README.txt'', File t)]"
  shows "available_files (demo_env_at st en) (demo_tree outs) [''data''] =
     [[''data'', ''a.fits''], [''data'', ''l.fits''],
      [''data'', ''sub'', ''b.fil''], [''data'', ''sub'', ''c.fil'']]"
  using assms
  by (elim disjE)
     (simp_all add: available_files_def glob_recursive_def extensions_def has_magic_def
        path_str_def stat_def demo_tree_def ishidden_def endswith_def is_dir_node_def)

lemma demo_aggregate:
  "fold add_record [demo_rec_a, demo_rec_b, demo_rec_c] init_summary = demo_summary"
  by (simp add: add_record_def init_summary_def demo_summary_def append_new_def
      demo_rec_a_def demo_rec_b_def demo_rec_c_def)

lemma demo_scan:
  "scan (demo_env_at st en) (demo_tree outs)
     [[''data'', ''a.fits''], [''data'', ''l.fits''],
      [''data'', ''sub'', ''b.fil''], [''data'', ''sub'', ''c.fil'']] init_summary =
   Inr demo_summary"
  using demo_aggregate by (simp add: demo_islink demo_parse)

lemma demo_report_text:
  "report_text (demo_env_at st en) ''/data'' ''Unknown'' ''me'' demo_summary = demo_report st en"
proof -
  have n: "str_nat 3 = ''3''" by code_simp
  have s: "sort [''.fits'', ''.fil''] = [''.fil'', ''.fits'']"
    "sort [''Smith'', ''Unknown''] = [''Smith'', ''Unknown'']"
    "sort [''P001'', ''Unknown''] = [''P001'', ''Unknown'']"
    "sort [''SEARCH'', ''Unknown''] = [''SEARCH'', ''Unknown'']"
    "sort [''1400.0'', ''1450.5''] = [''1400.0'', ''1450.5'']"
    by code_simp+
  show ?thesis
    by (simp add: report_text_def demo_summary_def demo_env_at_def demo_report_def n s)
qed

lemma demo_dirs:
  "isdir (demo_tree outs) [''data'']"
  "isdir (demo_tree outs) [''w'', ''out'']"
  "isdir (demo_tree outs) [''data'', ''out'']"
  "\<not> exists (demo_tree outs) [''w'', ''out'', ''README.txt'']"
  by (simp_all add: isdir_def exists_def stat_def demo_tree_def)

lemma demo_run_abs:
  assumes "arg_d a = Some ''/data''" and "arg_n a = None" and "arg_l a = Some ''/w/out''"
    and "arg_o a = None" and "arg_g a = None"
  shows "\<exists>fs'. run (demo_env_at st en) (demo_tree []) a =
           Wrote [''w'', ''out'', ''README.txt''] (demo_report st en) fs'"
proof -
  let ?ev = "demo_env_at st en"
  have c: "settings ?ev a = \<lparr> data_directory = ''/data'', output_name = ''README.txt'',
     output_directory = ''/w/out'', owner = ''Unknown'', generator = ''me'' \<rparr>"
    by (simp add: settings_def assms given_def demo_fields)
  have pre: "preconditions ?ev (demo_tree []) (settings ?ev a) = None"
    by (simp add: c preconditions_def guarded_path_def demo_fields demo_resolve demo_join
        demo_dirs)
  have cand: "candidates ?ev (demo_tree []) (settings ?ev a) =
      [[''data'', ''a.fits''], [''data'', ''l.fits''],
       [''data'', ''sub'', ''b.fil''], [''data'', ''sub'', ''c.fil'']]"
    by (simp add: c candidates_def demo_fields demo_resolve demo_candidates)
  have w: "written_path ?ev (settings ?ev a) = [''w'', ''out'', ''README.txt'']"
    by (simp add: c written_path_def demo_fields demo_resolve)
  have "\<exists>fs'. write_at (demo_tree []) [''w'', ''out'', ''README.txt''] (demo_report st en) = Some fs'"
    by (simp add: demo_tree_def)
  then obtain fs' where
    "write_at (demo_tree []) [''w'', ''out'', ''README.txt''] (demo_report st en) = Some fs'"
    by blast
  then have "write_report ?ev (demo_tree []) (settings ?ev a) demo_summary =
      Wrote [''w'', ''out'', ''README.txt''] (demo_report st en) fs'"
    unfolding write_report_def w
    by (simp add: Let_def c demo_fields demo_resolve demo_dirs demo_report_text)
  moreover have "run ?ev (demo_tree []) a =
      write_report ?ev (demo_tree []) (settings ?ev a) demo_summary"
    unfolding run_def Let_def resolve_verbose_Inr pre cand demo_scan by simp
  ultimately show ?thesis by simp
qed

lemma demo_run_rel:
  assumes "outs = [] \<or> outs = [(''README.txt'', File t)]"
  shows "run (demo_env_at st en) (demo_tree outs) rel_args =
           Wrote [''data'', ''out'', ''README.txt''] (demo_report st en)
             (demo_tree [(''README.txt'', File (demo_report st en))])"
proof -
  let ?ev = "demo_env_at st en"
  have c: "settings ?ev rel_args = \<lparr> data_directory = ''/data'', output_name = ''README.txt'',
     output_directory = ''out'', owner = ''Unknown'', generator = ''me'' \<rparr>"
    by (simp add: settings_def rel_args_def given_def demo_fields)
  have pre: "preconditions ?ev (demo_tree outs) (settings ?ev rel_args) = None"
    by (simp add: c preconditions_def guarded_path_def demo_fields demo_resolve demo_join
        demo_dirs)
  have cand: "candidates ?ev (demo_tree outs) (settings ?ev rel_args) =
      [[''data'', ''a.fits''], [''data'', ''l.fits''],
       [''data'', ''sub'', ''b.fil''], [''data'', ''sub'', ''c.fil'']]"
    using assms by (simp add: c candidates_def demo_fields demo_resolve demo_candidates)
  have w: "written_path ?ev (settings ?ev rel_args) = [''data'', ''out'', ''README.txt'']"
    by (simp add: c written_path_def demo_fields demo_resolve)
  have "write_at (demo_tree outs) [''data'', ''out'', ''README.txt''] (demo_report st en) =
      Some (demo_tree [(''README.txt'', File (demo_report st en))])"
    using assms by (elim disjE) (simp_all add: demo_tree_def)
  then have "write_report ?ev (demo_tree outs) (settings ?ev rel_args) demo_summary =
      Wrote [''data'', ''out'', ''README.txt''] (demo_report st en)
        (demo_tree [(''README.txt'', File (demo_report st en))])"
    unfolding write_report_def w
    by (simp add: Let_def c demo_fields demo_resolve demo_dirs demo_report_text)
  moreover have "run ?ev (demo_tree outs) rel_args =
      write_report ?ev (demo_tree outs) (settings ?ev rel_args) demo_summary"
    unfolding run_def Let_def resolve_verbose_Inr pre cand demo_scan by simp
  ultimately show ?thesis by simp
qed






theorem symlinks_skipped_witness:
  "scan demo_env demo_fs [[''data'', ''l.fits''], [''data'', ''a.fits'']] init_summary =
     scan demo_env demo_fs [[''data'', ''a.fits'']] init_summary \<and>
   n_files demo_summary = length (filter (\<lambda>p. \<not> islink demo_fs p)
     [[''data'', ''a.fits''], [''data'', ''l.fits''],
      [''data'', ''sub'', ''b.fil''], [''data'', ''sub'', ''c.fil'']]) \<and>
   (\<exists>r. scan demo_env demo_fs [[''data'', ''l.fits'']] init_summary = Inr r \<and>
        n_files r = 0 \<and> tot_size r = 0 \<and> telescopes r = []) \<and>
   (\<exists>r. scan demo_env links_fs (available_files demo_env links_fs [''data'']) init_summary = Inr r \<and>
        n_files r = 0 \<and> tot_size r = 0 \<and> telescopes r = [])"
proof -
  have l: "islink demo_fs [''data'', ''l.fits'']" by (simp add: demo_fs_def demo_islink)
  have s: "scan demo_env demo_fs [[''data'', ''a.fits''], [''data'', ''l.fits''],
      [''data'', ''sub'', ''b.fil''], [''data'', ''sub'', ''c.fil'']] init_summary = Inr demo_summary"
    unfolding demo_env_def demo_fs_def by (rule demo_scan)
  have m: "\<not> has_magic (path_str [''data''])" by (simp add: has_magic_def path_str_def)
  have d: "stat links_fs [''data''] = Some (Dir [(''x.fits'', Link (Some (File ''abc''))),
                                  (''y.fil'', Link (Some (File ''de'')))])"
    by (simp add: stat_def links_fs_def)
  have a: "\<forall>(x, c) \<in> set [(''x.fits'', Link (Some (File ''abc''))),
                                  (''y.fil'', Link (Some (File ''de'')))].
             \<exists>t. c = Link (Some (File t))" by simp
  from symlinks_skipped [of demo_fs "[''data'', ''l.fits'']" demo_env "[[''data'', ''a.fits'']]"
      init_summary] l
  have 1: "scan demo_env demo_fs [[''data'', ''l.fits''], [''data'', ''a.fits'']] init_summary =
     scan demo_env demo_fs [[''data'', ''a.fits'']] init_summary" by blast
  from symlinks_skipped [of demo_fs _ demo_env "[[''data'', ''a.fits''], [''data'', ''l.fits''],
      [''data'', ''sub'', ''b.fil''], [''data'', ''sub'', ''c.fil'']]" _ demo_summary] s
  have 2: "n_files demo_summary = length (filter (\<lambda>p. \<not> islink demo_fs p)
     [[''data'', ''a.fits''], [''data'', ''l.fits''],
      [''data'', ''sub'', ''b.fil''], [''data'', ''sub'', ''c.fil'']])" by blast
  from symlinks_skipped [of links_fs _ demo_env _ _ _ "[''data'']"
      "[(''x.fits'', Link (Some (File ''abc''))), (''y.fil'', Link (Some (File ''de'')))]"] m d a
  have 3: "\<exists>r. scan demo_env links_fs (available_files demo_env links_fs [''data'']) init_summary
        = Inr r \<and> n_files r = 0 \<and> tot_size r = 0 \<and> telescopes r = []" by blast
  from symlinks_skipped [of demo_fs _ demo_env "[[''data'', ''l.fits'']]"] l
  have 4: "\<exists>r. scan demo_env demo_fs [[''data'', ''l.fits'']] init_summary = Inr r \<and>
        n_files r = 0 \<and> tot_size r = 0 \<and> telescopes r = []" by simp
  from 1 2 3 4 show ?thesis by blast
qed

subsection \<open>Where the script departs from its specification\<close>

text \<open>
  Claim C9 (a defect of the code). \<open>type=bool\<close> makes argparse pass the text of the
  option through \<open>bool\<close>, which is true for every non-empty string, so the test of
  lines 92 to 94 never fires: no value of \<open>-v\<close> is rejected, \<open>-v False\<close> turns the
  verbose mode on, and a run with \<open>-v maybe\<close> writes its report.
\<close>

theorem verbose_value_never_rejected:
  "resolve_verbose raw = Inr (raw \<noteq> None \<and> raw \<noteq> Some []) \<and>
   resolve_verbose (Some ''maybe'') = Inr True \<and>
   resolve_verbose (Some ''False'') = Inr True \<and>
   (\<exists>fs'. run demo_env demo_fs (demo_args\<lparr>arg_v := Some ''maybe''\<rparr>) =
      Wrote [''w'', ''out'', ''README.txt'']
        (demo_report ''2024-01-01 00:00:00'' ''2024-01-01 00:00:01'') fs')"
proof -
  have "\<exists>fs'. run demo_env demo_fs (demo_args\<lparr>arg_v := Some ''maybe''\<rparr>) =
      Wrote [''w'', ''out'', ''README.txt'']
        (demo_report ''2024-01-01 00:00:00'' ''2024-01-01 00:00:01'') fs'"
    unfolding demo_env_def demo_fs_def
    by (rule demo_run_abs) (simp_all add: demo_args_def)
  then show ?thesis by (simp add: resolve_verbose_Inr)
qed

text \<open>
  Claim C10 (a defect of the code). With the working directory \<open>/w\<close> and the options
  \<open>-d /data -l out\<close> the guard of line 160 tests \<open>/w/out/README.txt\<close>, while the file
  opened at line 252, after the two changes of directory, is \<open>/data/out/README.txt\<close>;
  the run writes the latter.
\<close>

theorem guard_and_write_differ:
  "guarded_path demo_env (settings demo_env rel_args) = [''w'', ''out'', ''README.txt''] \<and>
   written_path demo_env (settings demo_env rel_args) = [''data'', ''out'', ''README.txt''] \<and>
   run demo_env demo_fs rel_args =
     Wrote [''data'', ''out'', ''README.txt'']
       (demo_report ''2024-01-01 00:00:00'' ''2024-01-01 00:00:01'')
       (demo_tree [(''README.txt'',
          File (demo_report ''2024-01-01 00:00:00'' ''2024-01-01 00:00:01''))])"
proof -
  have c: "settings demo_env rel_args = \<lparr> data_directory = ''/data'',
     output_name = ''README.txt'', output_directory = ''out'', owner = ''Unknown'',
     generator = ''me'' \<rparr>"
    by (simp add: settings_def rel_args_def given_def demo_env_def demo_fields)
  have g: "guarded_path demo_env (settings demo_env rel_args) = [''w'', ''out'', ''README.txt'']"
    unfolding c by (simp add: guarded_path_def demo_env_def demo_fields demo_join demo_resolve)
  have w: "written_path demo_env (settings demo_env rel_args) = [''data'', ''out'', ''README.txt'']"
    unfolding c by (simp add: written_path_def demo_env_def demo_fields demo_resolve)
  have r: "run demo_env demo_fs rel_args =
     Wrote [''data'', ''out'', ''README.txt'']
       (demo_report ''2024-01-01 00:00:00'' ''2024-01-01 00:00:01'')
       (demo_tree [(''README.txt'',
          File (demo_report ''2024-01-01 00:00:00'' ''2024-01-01 00:00:01''))])"
    unfolding demo_env_def demo_fs_def by (rule demo_run_rel) simp
  from g w r show ?thesis by blast
qed

lemma run_precondition_exit:
  "preconditions ev fs (settings ev a) = Some msg \<Longrightarrow> run ev fs a = Exited msg"
  by (simp add: run_def resolve_verbose_Inr)

lemma run_declined_exit:
  assumes "preconditions ev fs (settings ev a) = None"
    and "1000 < length (candidates ev fs (settings ev a))"
    and "answer ev = Some reply" and "reply \<noteq> ''Y''"
  shows "run ev fs a = Exited []"
  using assms by (simp add: run_def Let_def resolve_verbose_Inr)

lemma run_abort_keeps_files:
  "run ev fs a = Exited msg \<or> run ev fs a = Raised err \<Longrightarrow> fs_after fs (run ev fs a) = fs"
  by (auto simp: fs_after_def)

text \<open>
  Claim C2 (a defect of the code). Every exit happens before anything is written, as the
  three lemmas above record, and a second run is refused when the guard tests the file
  that was written (shown at the end). But in the setting of C10 the second run with the
  same options is not refused: the guard still looks at \<open>/w/out/README.txt\<close>, so the run
  goes through and replaces the report that the first run wrote to
  \<open>/data/out/README.txt\<close> by a different text.
\<close>

theorem second_run_overwrites:
  "run demo_env demo_fs rel_args =
     Wrote [''data'', ''out'', ''README.txt'']
       (demo_report ''2024-01-01 00:00:00'' ''2024-01-01 00:00:01'')
       (demo_tree [(''README.txt'',
          File (demo_report ''2024-01-01 00:00:00'' ''2024-01-01 00:00:01''))]) \<and>
   run later_env
     (demo_tree [(''README.txt'',
        File (demo_report ''2024-01-01 00:00:00'' ''2024-01-01 00:00:01''))]) rel_args =
     Wrote [''data'', ''out'', ''README.txt'']
       (demo_report ''2024-01-02 00:00:00'' ''2024-01-02 00:00:01'')
       (demo_tree [(''README.txt'',
          File (demo_report ''2024-01-02 00:00:00'' ''2024-01-02 00:00:01''))]) \<and>
   demo_report ''2024-01-02 00:00:00'' ''2024-01-02 00:00:01'' \<noteq>
   demo_report ''2024-01-01 00:00:00'' ''2024-01-01 00:00:01''"
proof -
  have 1: "run demo_env demo_fs rel_args =
     Wrote [''data'', ''out'', ''README.txt'']
       (demo_report ''2024-01-01 00:00:00'' ''2024-01-01 00:00:01'')
       (demo_tree [(''README.txt'',
          File (demo_report ''2024-01-01 00:00:00'' ''2024-01-01 00:00:01''))])"
    unfolding demo_env_def demo_fs_def by (rule demo_run_rel) simp
  have 2: "run later_env
     (demo_tree [(''README.txt'',
        File (demo_report ''2024-01-01 00:00:00'' ''2024-01-01 00:00:01''))]) rel_args =
     Wrote [''data'', ''out'', ''README.txt'']
       (demo_report ''2024-01-02 00:00:00'' ''2024-01-02 00:00:01'')
       (demo_tree [(''README.txt'',
          File (demo_report ''2024-01-02 00:00:00'' ''2024-01-02 00:00:01''))])"
    unfolding later_env_def by (rule demo_run_rel) simp
  have 3: "demo_report ''2024-01-02 00:00:00'' ''2024-01-02 00:00:01'' \<noteq>
   demo_report ''2024-01-01 00:00:00'' ''2024-01-01 00:00:01''"
    by (simp add: demo_report_def)
  from 1 2 3 show ?thesis by blast
qed

subsection \<open>Enumerating the candidates\<close>



















subsection \<open>The refusal of a second run\<close>

text \<open>
  When the path the guard tests is the path that is opened for writing (as it is for an
  absolute output directory), a second run with the same options in the same working
  directory is refused and leaves the files as they are.
\<close>

lemma second_run_refused_if_paths_agree:
  assumes first: "run ev fs a = Wrote p t fs'"
    and agree: "guarded_path ev (settings ev a) = written_path ev (settings ev a)"
    and cwd: "getcwd ev' = getcwd ev" and user: "getuser ev' = getuser ev"
  shows "run ev' fs' a =
           Exited (''There is already a file named '' @
             os_path_join (output_directory (settings ev a)) (output_name (settings ev a)) @ ''!'')"
    and "fs_after fs' (run ev' fs' a) = fs'"
proof -
  define c where "c = settings ev a"
  have c': "settings ev' a = c" by (simp add: c_def settings_def cwd user)
  from run_Wrote [OF first] have pre: "preconditions ev fs c = None"
    and p: "p = written_path ev c" and w: "write_at fs p t = Some fs'"
    unfolding c_def by blast+
  from pre have d1: "isdir fs (resolve (getcwd ev) (data_directory c))"
    and d2: "isdir fs (resolve (getcwd ev) (output_directory c))"
    by (auto simp: preconditions_def split: if_splits)
  have e: "exists fs' (guarded_path ev' c)"
    using write_at_stat [OF w] agree p by (simp add: exists_def guarded_path_def cwd c_def)
  have "preconditions ev' fs' c =
      Some (''There is already a file named '' @
             os_path_join (output_directory c) (output_name c) @ ''!'')"
    using write_at_isdir [OF w d1] write_at_isdir [OF w d2] e
    by (simp add: preconditions_def cwd)
  then show "run ev' fs' a =
           Exited (''There is already a file named '' @
             os_path_join (output_directory (settings ev a)) (output_name (settings ev a)) @ ''!'')"
    unfolding c_def [symmetric] by (simp add: run_def c' resolve_verbose_Inr)
  then show "fs_after fs' (run ev' fs' a) = fs'" by (simp add: fs_after_def)
qed

end
